theory Spec2Isabelle
  imports Main
begin

section \<open>ContextContainer: a dependency injection container keyed by strings\<close>

text \<open>
  The class \<^verbatim>\<open>ContextContainer\<close> of \<^verbatim>\<open>ReactCommon/utils/ContextContainer.h\<close> keeps two
  hash maps behind a readers-writer mutex: \<^verbatim>\<open>instances_\<close>, from a key to a type-erased
  shared pointer, and (unless \<^verbatim>\<open>NDEBUG\<close> is defined) \<^verbatim>\<open>typeHashes_\<close>, from a key to
  \<^verbatim>\<open>typeid(T).hash_code()\<close> of the type the key was registered with. Its three member
  templates are embedded below as state transformers over a record of the two maps.
  The mutex orders concurrent calls and holds no data; a call is modelled as running
  alone, from the moment it has the lock to the moment it gives it back.
\<close>

subsection \<open>Build mode, failures, calls that may fail\<close>

text \<open>
  \<^verbatim>\<open>assert\<close> and the \<^verbatim>\<open>#ifndef NDEBUG\<close> blocks depend on one preprocessor symbol.
  \<open>Debug\<close> is a build without \<^verbatim>\<open>NDEBUG\<close>, \<open>NDEBUG\<close> a build with it.
\<close>

datatype build = Debug | NDEBUG

text \<open>
  The ways a call ends without returning: a failed \<^verbatim>\<open>assert\<close> prints its message and
  aborts the process; \<^verbatim>\<open>at\<close> on a missing key throws \<^verbatim>\<open>std::out_of_range\<close>, which a caller
  may catch; reading an object through a pointer cast to a type it does not have is
  undefined behaviour.
\<close>

datatype failure = AssertionFailed string | OutOfRange | UndefinedBehaviour

type_synonym ('a, 's) action = "'s \<Rightarrow> (failure + 'a) \<times> 's"

definition return :: "'a \<Rightarrow> ('a, 's) action" where
  "return a s = (Inr a, s)"

definition throw :: "failure \<Rightarrow> ('a, 's) action" where
  "throw e s = (Inl e, s)"

text \<open>Sequencing: the second statement runs only when the first one returned.\<close>

definition and_then :: "('a, 's) action \<Rightarrow> ('a \<Rightarrow> ('b, 's) action) \<Rightarrow> ('b, 's) action" where
  "and_then m f s = (case m s of (Inl e, s') \<Rightarrow> (Inl e, s') | (Inr a, s') \<Rightarrow> f a s')"

text \<open>
  \<^verbatim>\<open>assert(cond && "msg")\<close>: with \<^verbatim>\<open>NDEBUG\<close> the macro expands to nothing and
  \<open>cond\<close> is not evaluated; otherwise \<open>cond\<close> is evaluated (it may throw) and a false
  value aborts with the message.
\<close>

definition assert :: "build \<Rightarrow> (bool, 's) action \<Rightarrow> string \<Rightarrow> (unit, 's) action" where
  "assert b cond msg =
     (case b of
        NDEBUG \<Rightarrow> return ()
      | Debug \<Rightarrow> and_then cond (\<lambda>ok. if ok then return () else throw (AssertionFailed msg)))"

definition already_had_instance :: string where
  "already_had_instance = ''ContextContainer already had instance for given key.''"

definition no_instance :: string where
  "no_instance = ''ContextContainer doesn't have an instance for given key.''"

definition different_type :: string where
  "different_type = ''ContextContainer stores an instance of different type for given key.''"

subsection \<open>The hash map\<close>

text \<open>
  Modelled from the spec: \<^verbatim>\<open>better::map\<close> is declared in \<^verbatim>\<open>better/map.h\<close>, which is not
  among the sources at hand; it is the mapping with unique keys of the data model, an
  alias of the standard unordered map. Of its contract the class uses: \<^verbatim>\<open>find\<close>, which
  yields the entry of a key or \<^verbatim>\<open>end()\<close>; \<^verbatim>\<open>insert\<close>, which adds an entry only when the
  key has none and otherwise leaves the map as it is; \<^verbatim>\<open>at\<close>, which yields the value of
  a key and throws \<^verbatim>\<open>std::out_of_range\<close> when the key has none.
\<close>

definition map_find :: "('k \<rightharpoonup> 'a) \<Rightarrow> 'k \<Rightarrow> 'a option" where
  "map_find m k = m k"

definition map_insert :: "('k \<rightharpoonup> 'a) \<Rightarrow> 'k \<Rightarrow> 'a \<Rightarrow> ('k \<rightharpoonup> 'a)" where
  "map_insert m k a = (case m k of None \<Rightarrow> m(k \<mapsto> a) | Some _ \<Rightarrow> m)"

definition map_at :: "('k \<rightharpoonup> 'a) \<Rightarrow> 'k \<Rightarrow> failure + 'a" where
  "map_at m k = (case m k of None \<Rightarrow> Inl OutOfRange | Some a \<Rightarrow> Inr a)"

subsection \<open>Type-erased shared pointers\<close>

text \<open>
  \<^verbatim>\<open>std::make_shared<T>(instance)\<close> allocates a copy of \<open>instance\<close>; the map keeps it as
  \<^verbatim>\<open>std::shared_ptr<void>\<close>. The container never writes through the pointer and never
  hands it out, so the pointer is modelled by the object it owns: the type \<open>T\<close> the object
  was created with and the copied value. Types are elements of \<open>'t\<close>, values of \<open>'v\<close>;
  values are passed and returned by value, and a copy is equal to its original.
\<close>

record ('t, 'v) erased =
  dynamic_type :: 't
  pointee :: 'v

definition make_shared :: "'t \<Rightarrow> 'v \<Rightarrow> ('t, 'v) erased" where
  "make_shared T instance = \<lparr>dynamic_type = T, pointee = instance\<rparr>"

text \<open>
  \<^verbatim>\<open>*std::static_pointer_cast<T>(p)\<close>: a copy of the pointee when it is a \<open>T\<close>; the cast
  checks nothing, and reading an object of another type through it is undefined.
\<close>

definition deref_static_pointer_cast :: "'t \<Rightarrow> ('t, 'v) erased \<Rightarrow> ('v, 's) action" where
  "deref_static_pointer_cast T p =
     (if dynamic_type p = T then return (pointee p) else throw UndefinedBehaviour)"

subsection \<open>The container\<close>

text \<open>
  \<open>typeHashes\<close> exists only in a \<open>Debug\<close> build; in an \<open>NDEBUG\<close> build no code
  touches the field of the model, which stays empty. \<^verbatim>\<open>typeid(T).hash_code()\<close> belongs to
  the language runtime and is a parameter \<open>hash_code\<close> of every operation, with
  values in \<open>'h\<close> (\<^verbatim>\<open>size_t\<close> in the source).
\<close>

record ('t, 'h, 'v) container =
  instances :: "string \<rightharpoonup> ('t, 'v) erased"
  typeHashes :: "string \<rightharpoonup> 'h"

text \<open>The implicitly defined default constructor: both maps empty.\<close>

definition ContextContainer :: "('t, 'h, 'v) container" where
  "ContextContainer = \<lparr>instances = Map.empty, typeHashes = Map.empty\<rparr>"

text \<open>Reads and writes of the two fields, as steps of a call.\<close>

definition instances_find :: "string \<Rightarrow> (('t, 'v) erased option, ('t, 'h, 'v) container) action" where
  "instances_find key c = (Inr (map_find (instances c) key), c)"

definition instances_at :: "string \<Rightarrow> (('t, 'v) erased, ('t, 'h, 'v) container) action" where
  "instances_at key c = (map_at (instances c) key, c)"

definition typeHashes_at :: "string \<Rightarrow> ('h, ('t, 'h, 'v) container) action" where
  "typeHashes_at key c = (map_at (typeHashes c) key, c)"

definition instances_insert :: "string \<Rightarrow> ('t, 'v) erased \<Rightarrow> (unit, ('t, 'h, 'v) container) action" where
  "instances_insert key p c = (Inr (), c\<lparr>instances := map_insert (instances c) key p\<rparr>)"

definition typeHashes_insert :: "string \<Rightarrow> 'h \<Rightarrow> (unit, ('t, 'h, 'v) container) action" where
  "typeHashes_insert key h c = (Inr (), c\<lparr>typeHashes := map_insert (typeHashes c) key h\<rparr>)"

text \<open>
  \<^verbatim>\<open>registerInstance<T>(instance, key)\<close>, lines 37 to 49: the assertion that the key has
  no entry, the insertion of the copy, and in a \<open>Debug\<close> build the insertion of the
  hash code of \<open>T\<close>.
\<close>

definition registerInstance ::
  "build \<Rightarrow> ('t \<Rightarrow> 'h) \<Rightarrow> 't \<Rightarrow> 'v \<Rightarrow> string \<Rightarrow> (unit, ('t, 'h, 'v) container) action" where
  "registerInstance b hash_code T instance key =
     and_then
       (assert b (and_then (instances_find key) (\<lambda>it. return (it = None))) already_had_instance)
       (\<lambda>_. and_then (instances_insert key (make_shared T instance))
       (\<lambda>_. case b of
               Debug \<Rightarrow> typeHashes_insert key (hash_code T)
             | NDEBUG \<Rightarrow> return ()))"

text \<open>
  \<^verbatim>\<open>getInstance<T>(key)\<close>, lines 56 to 67: two assertions (the key has an entry; its
  recorded hash code is that of \<open>T\<close>), then the copy of what \<^verbatim>\<open>instances_.at(key)\<close>
  points to.
\<close>

definition getInstance ::
  "build \<Rightarrow> ('t \<Rightarrow> 'h) \<Rightarrow> 't \<Rightarrow> string \<Rightarrow> ('v, ('t, 'h, 'v) container) action" where
  "getInstance b hash_code T key =
     and_then
       (assert b (and_then (instances_find key) (\<lambda>it. return (it \<noteq> None))) no_instance)
       (\<lambda>_. and_then
          (assert b (and_then (typeHashes_at key) (\<lambda>h. return (h = hash_code T))) different_type)
       (\<lambda>_. and_then (instances_at key)
       (\<lambda>p. deref_static_pointer_cast T p)))"

text \<open>
  \<^verbatim>\<open>findInstance<T>(key)\<close>, lines 74 to 88: the empty optional when \<^verbatim>\<open>find\<close> reaches
  \<^verbatim>\<open>end()\<close>; otherwise the assertion on the hash code and the copy of what the
  iterator's pointer points to.
\<close>

definition findInstance ::
  "build \<Rightarrow> ('t \<Rightarrow> 'h) \<Rightarrow> 't \<Rightarrow> string \<Rightarrow> ('v option, ('t, 'h, 'v) container) action" where
  "findInstance b hash_code T key =
     and_then (instances_find key)
       (\<lambda>iterator. case iterator of
          None \<Rightarrow> return None
        | Some p \<Rightarrow>
            and_then
              (assert b (and_then (typeHashes_at key) (\<lambda>h. return (h = hash_code T))) different_type)
            (\<lambda>_. and_then (deref_static_pointer_cast T p)
            (\<lambda>v. return (Some v))))"

subsection \<open>Histories of calls\<close>

text \<open>
  A client of the container is a sequence of calls, starting from a freshly constructed
  container. \<open>exec\<close> gives the container as a call leaves it, whatever the call's
  outcome (for a call that aborted, the container at the abort); \<open>run\<close> does so for a
  sequence. The histories of \<open>run\<close> include those of every real client, which makes no
  further call once an assertion has aborted it. After a read with undefined behaviour
  the language promises nothing; \<open>exec\<close> keeps the container there as well, so a
  statement about a history speaks of a real client up to its first such read.
\<close>

datatype ('t, 'v) call = Register 't 'v string | Get 't string | Find 't string

fun exec :: "build \<Rightarrow> ('t \<Rightarrow> 'h) \<Rightarrow> ('t, 'v) call \<Rightarrow> ('t, 'h, 'v) container \<Rightarrow> ('t, 'h, 'v) container" where
  "exec b hash_code (Register T instance key) c = snd (registerInstance b hash_code T instance key c)"
| "exec b hash_code (Get T key) c = snd (getInstance b hash_code T key c)"
| "exec b hash_code (Find T key) c = snd (findInstance b hash_code T key c)"

fun run :: "build \<Rightarrow> ('t \<Rightarrow> 'h) \<Rightarrow> ('t, 'v) call list \<Rightarrow> ('t, 'h, 'v) container \<Rightarrow> ('t, 'h, 'v) container" where
  "run b hash_code [] c = c"
| "run b hash_code (x # xs) c = run b hash_code xs (exec b hash_code x c)"

text \<open>\<open>registers key x\<close>: the call \<open>x\<close> is a registration under \<open>key\<close>.\<close>

fun registers :: "string \<Rightarrow> ('t, 'v) call \<Rightarrow> bool" where
  "registers key (Register T instance k) = (k = key)"
| "registers key (Get T k) = False"
| "registers key (Find T k) = False"

text \<open>\<open>never_registered key calls\<close>: no call of the sequence is a registration under \<open>key\<close>.\<close>

definition never_registered :: "string \<Rightarrow> ('t, 'v) call list \<Rightarrow> bool" where
  "never_registered key calls = list_all (\<lambda>x. \<not> registers key x) calls"

text \<open>
  The invariant that ties the two maps together: in a \<open>Debug\<close> build a key has a
  recorded hash code exactly when it has an instance, and the code is that of the type
  the instance was created with; in an \<open>NDEBUG\<close> build nothing is recorded.
\<close>

definition tagged :: "build \<Rightarrow> ('t \<Rightarrow> 'h) \<Rightarrow> ('t, 'h, 'v) container \<Rightarrow> bool" where
  "tagged b hash_code c =
     (\<forall>key. typeHashes c key =
        (case b of
           Debug \<Rightarrow> map_option (\<lambda>p. hash_code (dynamic_type p)) (instances c key)
         | NDEBUG \<Rightarrow> None))"

section \<open>Each operation, by cases on the key\<close>

lemmas step_defs =
  return_def throw_def and_then_def assert_def map_find_def map_insert_def map_at_def
  make_shared_def deref_static_pointer_cast_def instances_find_def instances_at_def
  typeHashes_at_def instances_insert_def typeHashes_insert_def

lemma registerInstance_fresh:
  "instances c key = None \<Longrightarrow>
   registerInstance b hash_code T v key c =
     (Inr (),
      c\<lparr>instances := (instances c)(key \<mapsto> make_shared T v),
        typeHashes := (case b of
                         Debug \<Rightarrow> map_insert (typeHashes c) key (hash_code T)
                       | NDEBUG \<Rightarrow> typeHashes c)\<rparr>)"
  by (cases b) (simp_all add: registerInstance_def step_defs split: option.split)

lemma registerInstance_present:
  "instances c key = Some p \<Longrightarrow>
   registerInstance b hash_code T v key c =
     (case b of Debug \<Rightarrow> Inl (AssertionFailed already_had_instance) | NDEBUG \<Rightarrow> Inr (), c)"
  by (cases b) (simp_all add: registerInstance_def step_defs)

lemma registerInstance_returned:
  assumes "registerInstance b hash_code T v key c = (Inr (), c1)"
  shows "instances c1 key \<noteq> None"
proof (cases "instances c key")
  case None
  with assms show ?thesis by (auto simp: registerInstance_fresh)
next
  case (Some p)
  with assms show ?thesis by (auto simp: registerInstance_present)
qed

lemma registerInstance_Debug_returned:
  assumes "fst (registerInstance Debug hash_code T v key c) = Inr ()"
  shows "instances (snd (registerInstance Debug hash_code T v key c)) key = Some (make_shared T v)"
proof (cases "instances c key")
  case None
  then show ?thesis by (simp add: registerInstance_fresh)
next
  case (Some p)
  with assms show ?thesis by (simp add: registerInstance_present)
qed

lemma getInstance_absent:
  "instances c key = None \<Longrightarrow>
   getInstance b hash_code T key c =
     (Inl (case b of Debug \<Rightarrow> AssertionFailed no_instance | NDEBUG \<Rightarrow> OutOfRange), c)"
  by (cases b) (simp_all add: getInstance_def step_defs)

lemma findInstance_absent:
  "instances c key = None \<Longrightarrow> findInstance b hash_code T key c = (Inr None, c)"
  by (simp add: findInstance_def step_defs)

lemma getInstance_state: "snd (getInstance b hash_code T key c) = c"
  by (cases b) (simp_all add: getInstance_def step_defs split: option.splits)

lemma findInstance_state: "snd (findInstance b hash_code T key c) = c"
  by (cases b) (simp_all add: findInstance_def step_defs split: option.splits)

lemma getInstance_present:
  "tagged b hash_code c \<Longrightarrow> instances c key = Some p \<Longrightarrow>
   getInstance b hash_code T key c =
     (if b = Debug \<and> hash_code (dynamic_type p) \<noteq> hash_code T
        then Inl (AssertionFailed different_type)
      else if dynamic_type p = T then Inr (pointee p)
      else Inl UndefinedBehaviour, c)"
  by (cases b) (auto simp add: tagged_def getInstance_def step_defs)

lemma findInstance_present:
  "tagged b hash_code c \<Longrightarrow> instances c key = Some p \<Longrightarrow>
   findInstance b hash_code T key c =
     (if b = Debug \<and> hash_code (dynamic_type p) \<noteq> hash_code T
        then Inl (AssertionFailed different_type)
      else if dynamic_type p = T then Inr (Some (pointee p))
      else Inl UndefinedBehaviour, c)"
  by (cases b) (auto simp add: tagged_def findInstance_def step_defs)

section \<open>Histories: what every call preserves\<close>

lemma run_append:
  "run b hash_code (xs @ ys) c = run b hash_code ys (run b hash_code xs c)"
  by (induction xs arbitrary: c) simp_all

lemma exec_instances_mono:
  assumes "instances c key = Some p"
  shows "instances (exec b hash_code x c) key = Some p"
proof (cases x)
  case (Register T v k)
  show ?thesis
  proof (cases "instances c k")
    case None
    with Register assms show ?thesis by (auto simp: registerInstance_fresh)
  next
    case (Some q)
    with Register assms show ?thesis by (simp add: registerInstance_present)
  qed
next
  case (Get T k)
  with assms show ?thesis by (simp add: getInstance_state)
next
  case (Find T k)
  with assms show ?thesis by (simp add: findInstance_state)
qed

lemma run_instances_mono:
  "instances c key = Some p \<Longrightarrow> instances (run b hash_code xs c) key = Some p"
  by (induction xs arbitrary: c) (simp_all add: exec_instances_mono)

lemma exec_not_registers:
  assumes "\<not> registers key x"
  shows "instances (exec b hash_code x c) key = instances c key"
proof (cases x)
  case (Register T v k)
  with assms have "k \<noteq> key" by simp
  with Register show ?thesis
    by (cases "instances c k") (simp_all add: registerInstance_fresh registerInstance_present)
qed (simp_all add: getInstance_state findInstance_state)

lemma run_never_registered:
  "never_registered key xs \<Longrightarrow>
   instances (run b hash_code xs c) key = instances c key"
  by (induction xs arbitrary: c) (simp_all add: never_registered_def exec_not_registers)

lemma fresh_instances:
  "never_registered key calls \<Longrightarrow>
   instances (run b hash_code calls ContextContainer) key = None"
  by (simp add: run_never_registered ContextContainer_def)

lemma tagged_ContextContainer: "tagged b hash_code ContextContainer"
  by (cases b) (simp_all add: tagged_def ContextContainer_def)

lemma exec_tagged:
  assumes t: "tagged b hash_code c"
  shows "tagged b hash_code (exec b hash_code x c)"
proof (cases x)
  case (Register T v k)
  show ?thesis
  proof (cases "instances c k")
    case None
    with t have "typeHashes c k = None" by (cases b) (simp_all add: tagged_def)
    with t None Register show ?thesis
      by (cases b) (simp_all add: tagged_def registerInstance_fresh map_insert_def make_shared_def)
  next
    case (Some q)
    with t Register show ?thesis by (simp add: registerInstance_present)
  qed
next
  case (Get T k)
  with t show ?thesis by (simp add: getInstance_state)
next
  case (Find T k)
  with t show ?thesis by (simp add: findInstance_state)
qed

lemma run_tagged: "tagged b hash_code c \<Longrightarrow> tagged b hash_code (run b hash_code xs c)"
  by (induction xs arbitrary: c) (simp_all add: exec_tagged)

lemma reachable_tagged: "tagged b hash_code (run b hash_code calls ContextContainer)"
  by (simp add: run_tagged tagged_ContextContainer)

section \<open>The claims\<close>

text \<open>
  In the examples below types are numbered by \<open>nat\<close>, the hash code of a type is its
  number unless the example gives another \<open>hash_code\<close>, and the registered values
  are integers.
\<close>

text \<open>
  Claim C1 (round trip). Let \<open>key\<close> be a key that no call of the history has
  registered. Then \<open>registerInstance\<close> of a value \<open>v\<close> with type \<open>T\<close> under
  \<open>key\<close> returns, and \<open>getInstance\<close> with the same \<open>T\<close> and \<open>key\<close> on the
  container it leaves returns \<open>v\<close>, in either build. What is returned is the value held
  by the container's own copy.
\<close>

theorem register_then_get_returns_value:
  assumes "never_registered key calls"
  shows "fst (registerInstance b hash_code T v key (run b hash_code calls ContextContainer)) = Inr () \<and>
         fst (getInstance b hash_code T key
                (snd (registerInstance b hash_code T v key (run b hash_code calls ContextContainer))))
           = Inr v"
proof -
  let ?c = "run b hash_code calls ContextContainer"
  let ?c' = "snd (registerInstance b hash_code T v key ?c)"
  from assms have fresh: "instances ?c key = None" by (rule fresh_instances)
  have "?c' = exec b hash_code (Register T v key) ?c" by simp
  then have "?c' = run b hash_code (calls @ [Register T v key]) ContextContainer"
    by (simp add: run_append)
  then have t: "tagged b hash_code ?c'" by (simp only: reachable_tagged)
  from fresh have p: "instances ?c' key = Some (make_shared T v)"
    by (simp add: registerInstance_fresh)
  from fresh have "fst (registerInstance b hash_code T v key ?c) = Inr ()"
    by (simp add: registerInstance_fresh)
  moreover from getInstance_present [OF t p, of T]
  have "fst (getInstance b hash_code T key ?c') = Inr v"
    by (simp add: make_shared_def)
  ultimately show ?thesis by simp
qed

text \<open>The round trip after three earlier calls, in a \<open>Debug\<close> build.\<close>

theorem register_then_get_returns_value_witness:
  "never_registered ''B'' [Register (1::nat) (10::int) ''A'', Get 1 ''A'', Find 2 ''Z''] \<and>
   fst (registerInstance Debug (\<lambda>t. t) 2 20 ''B''
         (run Debug (\<lambda>t. t) [Register (1::nat) (10::int) ''A'', Get 1 ''A'', Find 2 ''Z'']
            ContextContainer)) = Inr () \<and>
   fst (getInstance Debug (\<lambda>t. t) 2 ''B''
         (snd (registerInstance Debug (\<lambda>t. t) 2 20 ''B''
            (run Debug (\<lambda>t. t) [Register (1::nat) (10::int) ''A'', Get 1 ''A'', Find 2 ''Z'']
               ContextContainer)))) = Inr 20"
proof -
  have h: "never_registered ''B'' [Register (1::nat) (10::int) ''A'', Get 1 ''A'', Find 2 ''Z'']"
    by (simp add: never_registered_def)
  show ?thesis
    using h register_then_get_returns_value [OF h, of Debug "\<lambda>t. t" 2 20] by blast
qed

text \<open>
  Claim C2 (duplicate registration), as the code has it. Once a \<open>registerInstance\<close>
  under \<open>key\<close> has returned, a later \<open>registerInstance\<close> under \<open>key\<close>, after any
  further calls and with any type and value, leaves the container exactly as it found it.
  In a \<open>Debug\<close> build it aborts on the assertion ``already had instance''; in an
  \<open>NDEBUG\<close> build the assertion is compiled out and the call returns normally, its
  \<^verbatim>\<open>insert\<close> having added nothing.
\<close>

theorem second_registerInstance:
  assumes "registerInstance b hash_code T1 v1 key c = (Inr (), c1)"
  shows "registerInstance b hash_code T2 v2 key (run b hash_code calls c1) =
           (case b of Debug \<Rightarrow> Inl (AssertionFailed already_had_instance) | NDEBUG \<Rightarrow> Inr (),
            run b hash_code calls c1)"
proof -
  from assms obtain p where "instances c1 key = Some p"
    using registerInstance_returned by fastforce
  then have "instances (run b hash_code calls c1) key = Some p"
    by (rule run_instances_mono)
  then show ?thesis by (rule registerInstance_present)
qed

text \<open>A second registration under \<open>''A''\<close> in a \<open>Debug\<close> build, one lookup later.\<close>

theorem second_registerInstance_witness:
  "registerInstance Debug (\<lambda>t. t) (1::nat) (10::int) ''A'' ContextContainer
     = (Inr (), \<lparr>instances = [''A'' \<mapsto> make_shared 1 10], typeHashes = [''A'' \<mapsto> 1]\<rparr>) \<and>
   registerInstance Debug (\<lambda>t. t) (2::nat) (20::int) ''A''
       (run Debug (\<lambda>t. t) [Find 1 ''A'']
          \<lparr>instances = [''A'' \<mapsto> make_shared 1 10], typeHashes = [''A'' \<mapsto> 1]\<rparr>)
     = (Inl (AssertionFailed already_had_instance),
        run Debug (\<lambda>t. t) [Find 1 ''A'']
          \<lparr>instances = [''A'' \<mapsto> make_shared 1 10], typeHashes = [''A'' \<mapsto> 1]\<rparr>)"
proof -
  have h: "registerInstance Debug (\<lambda>t. t) (1::nat) (10::int) ''A'' ContextContainer
     = (Inr (), \<lparr>instances = [''A'' \<mapsto> make_shared 1 10], typeHashes = [''A'' \<mapsto> 1]\<rparr>)"
    by (simp add: registerInstance_def step_defs ContextContainer_def)
  show ?thesis using h second_registerInstance [OF h, of 2 20 "[Find 1 ''A'']"] by simp
qed

text \<open>
  Claim C2 as stated fails in an \<open>NDEBUG\<close> build: on a new container, registering 10
  and then 20 under \<open>''A''\<close>, both calls return normally and no fatal condition arises.
\<close>

theorem second_registerInstance_returns_under_NDEBUG:
  "fst (registerInstance NDEBUG (\<lambda>t. t) (1::nat) (10::int) ''A'' ContextContainer) = Inr () \<and>
   fst (registerInstance NDEBUG (\<lambda>t. t) (1::nat) (20::int) ''A''
         (snd (registerInstance NDEBUG (\<lambda>t. t) (1::nat) (10::int) ''A'' ContextContainer))) = Inr ()"
  by (simp add: registerInstance_def step_defs ContextContainer_def)

text \<open>
  Claim C3 (type validation), as the code has it. The assertion compares
  \<^verbatim>\<open>typeid(T).hash_code()\<close> with the recorded hash code and nothing else. In a
  \<open>Debug\<close> build, let a \<open>registerInstance\<close> with type \<open>A\<close> under \<open>key\<close> have
  returned at some point of the history, and let \<open>B\<close> be a type whose hash code differs
  from that of \<open>A\<close>. Then, after any further calls, both \<open>getInstance\<close> and
  \<open>findInstance\<close> with \<open>B\<close> and \<open>key\<close> abort on the assertion ``stores an
  instance of different type''.
\<close>

theorem lookup_with_other_hash_code_asserts:
  assumes "hash_code B \<noteq> hash_code A"
    and "fst (registerInstance Debug hash_code A v key
                (run Debug hash_code before ContextContainer)) = Inr ()"
  shows "fst (getInstance Debug hash_code B key
                (run Debug hash_code (before @ Register A v key # after) ContextContainer))
           = Inl (AssertionFailed different_type) \<and>
         fst (findInstance Debug hash_code B key
                (run Debug hash_code (before @ Register A v key # after) ContextContainer))
           = Inl (AssertionFailed different_type)"
proof -
  let ?c1 = "run Debug hash_code (before @ [Register A v key]) ContextContainer"
  let ?c = "run Debug hash_code (before @ Register A v key # after) ContextContainer"
  have t: "tagged Debug hash_code ?c" by (rule reachable_tagged)
  from assms(2) have "instances ?c1 key = Some (make_shared A v)"
    by (simp add: run_append registerInstance_Debug_returned)
  then have "instances (run Debug hash_code after ?c1) key = Some (make_shared A v)"
    by (rule run_instances_mono)
  then have p: "instances ?c key = Some (make_shared A v)"
    by (simp add: run_append)
  from assms(1) have "hash_code A \<noteq> hash_code B" by simp
  then show ?thesis
    using getInstance_present [OF t p, of B] findInstance_present [OF t p, of B]
    by (simp add: make_shared_def)
qed

text \<open>Registered with type 1 under \<open>''A''\<close>, looked up with type 2 one call later.\<close>

theorem lookup_with_other_hash_code_asserts_witness:
  "(2::nat) \<noteq> 1 \<and>
   fst (registerInstance Debug (\<lambda>t. t) (1::nat) (10::int) ''A''
         (run Debug (\<lambda>t. t) [] ContextContainer)) = Inr () \<and>
   fst (getInstance Debug (\<lambda>t. t) 2 ''A''
         (run Debug (\<lambda>t. t) ([] @ Register (1::nat) (10::int) ''A'' # [Find 1 ''A''])
            ContextContainer))
     = Inl (AssertionFailed different_type) \<and>
   fst (findInstance Debug (\<lambda>t. t) 2 ''A''
         (run Debug (\<lambda>t. t) ([] @ Register (1::nat) (10::int) ''A'' # [Find 1 ''A''])
            ContextContainer))
     = Inl (AssertionFailed different_type)"
proof -
  have h1: "(\<lambda>t::nat. t) 2 \<noteq> (\<lambda>t::nat. t) 1" by simp
  have h2: "fst (registerInstance Debug (\<lambda>t. t) (1::nat) (10::int) ''A''
                  (run Debug (\<lambda>t. t) [] ContextContainer)) = Inr ()"
    by (simp add: registerInstance_def step_defs ContextContainer_def)
  show ?thesis
    using h1 h2 lookup_with_other_hash_code_asserts [OF h1 h2, of "[Find 1 ''A'']"] by simp
qed

text \<open>
  Claim C3 as stated fails for two distinct types with one hash code; \<^verbatim>\<open>typeid\<close> drops
  const and volatile, so \<^verbatim>\<open>int\<close> and \<^verbatim>\<open>const int\<close> are such a pair. Here the types 1
  and 3 are distinct and \<open>hash_code\<close> gives both the code 1: in a \<open>Debug\<close> build,
  after a registration with type 1 under \<open>''A''\<close> has returned, neither
  \<open>getInstance\<close> nor \<open>findInstance\<close> with type 3 ends on the assertion.
\<close>

theorem lookup_with_same_hash_code_passes_assertion:
  "(3::nat) \<noteq> 1 \<and>
   fst (registerInstance Debug (\<lambda>t. t mod 2) (1::nat) (10::int) ''A'' ContextContainer) = Inr () \<and>
   fst (getInstance Debug (\<lambda>t. t mod 2) 3 ''A''
         (run Debug (\<lambda>t. t mod 2) [Register (1::nat) (10::int) ''A''] ContextContainer))
     \<noteq> Inl (AssertionFailed different_type) \<and>
   fst (findInstance Debug (\<lambda>t. t mod 2) 3 ''A''
         (run Debug (\<lambda>t. t mod 2) [Register (1::nat) (10::int) ''A''] ContextContainer))
     \<noteq> Inl (AssertionFailed different_type)"
  by (simp add: registerInstance_def getInstance_def findInstance_def step_defs ContextContainer_def)

text \<open>
  Claim C4 (mandatory lookup of a missing key), as the code has it. For a key that no
  call of the history has registered, \<open>getInstance\<close> never returns a value and leaves
  the container as it is. In a \<open>Debug\<close> build it aborts on the assertion ``doesn't
  have an instance''; in an \<open>NDEBUG\<close> build the assertions are compiled out and
  \<^verbatim>\<open>instances_.at(key)\<close> throws \<^verbatim>\<open>std::out_of_range\<close>, the exception announced by the
  comment above the function.
\<close>

theorem getInstance_never_registered:
  assumes "never_registered key calls"
  shows "getInstance b hash_code T key (run b hash_code calls ContextContainer) =
           (Inl (case b of Debug \<Rightarrow> AssertionFailed no_instance | NDEBUG \<Rightarrow> OutOfRange),
            run b hash_code calls ContextContainer)"
  using assms by (simp add: fresh_instances getInstance_absent)

text \<open>The key \<open>''Z''\<close> after a registration under \<open>''A''\<close>, in both builds.\<close>

theorem getInstance_never_registered_witness:
  "never_registered ''Z'' [Register (1::nat) (10::int) ''A''] \<and>
   getInstance Debug (\<lambda>t. t) 1 ''Z''
       (run Debug (\<lambda>t. t) [Register (1::nat) (10::int) ''A''] ContextContainer) =
     (Inl (AssertionFailed no_instance),
      run Debug (\<lambda>t. t) [Register (1::nat) (10::int) ''A''] ContextContainer) \<and>
   getInstance NDEBUG (\<lambda>t. t) 1 ''Z''
       (run NDEBUG (\<lambda>t. t) [Register (1::nat) (10::int) ''A''] ContextContainer) =
     (Inl OutOfRange,
      run NDEBUG (\<lambda>t. t) [Register (1::nat) (10::int) ''A''] ContextContainer)"
proof -
  have h: "never_registered ''Z'' [Register (1::nat) (10::int) ''A'']" by (simp add: never_registered_def)
  show ?thesis
    using h getInstance_never_registered [OF h, of Debug "\<lambda>t. t" 1]
      getInstance_never_registered [OF h, of NDEBUG "\<lambda>t. t" 1]
    by simp
qed

text \<open>
  Claim C4 as stated fails in an \<open>NDEBUG\<close> build: on a new container
  \<open>getInstance\<close> of \<open>''Z''\<close> ends with the exception \<^verbatim>\<open>std::out_of_range\<close>, which a
  caller can catch, and not with the assertion's abort.
\<close>

theorem getInstance_missing_key_throws_under_NDEBUG:
  "fst (getInstance NDEBUG (\<lambda>t. t) (1::nat) ''Z'' (ContextContainer :: (nat, nat, int) container))
     = Inl OutOfRange \<and>
   fst (getInstance NDEBUG (\<lambda>t. t) (1::nat) ''Z'' (ContextContainer :: (nat, nat, int) container))
     \<noteq> Inl (AssertionFailed no_instance)"
  by (simp add: getInstance_def step_defs ContextContainer_def)

text \<open>
  Claim C5 (optional lookup of a missing key). For a key that no call of the history has
  registered, \<open>findInstance\<close> returns the empty optional, in either build and for every
  type, and leaves the container as it is.
\<close>

theorem findInstance_never_registered:
  assumes "never_registered key calls"
  shows "findInstance b hash_code T key (run b hash_code calls ContextContainer) =
           (Inr None, run b hash_code calls ContextContainer)"
  using assms by (simp add: fresh_instances findInstance_absent)

text \<open>After two registrations, \<open>''Z''\<close> is not found.\<close>

theorem findInstance_never_registered_witness:
  "never_registered ''Z'' [Register (1::nat) (10::int) ''A'', Register 2 20 ''B''] \<and>
   findInstance NDEBUG (\<lambda>t. t) 1 ''Z''
       (run NDEBUG (\<lambda>t. t) [Register (1::nat) (10::int) ''A'', Register 2 20 ''B''] ContextContainer) =
     (Inr None,
      run NDEBUG (\<lambda>t. t) [Register (1::nat) (10::int) ''A'', Register 2 20 ''B''] ContextContainer)"
proof -
  have h: "never_registered ''Z'' [Register (1::nat) (10::int) ''A'', Register 2 20 ''B'']"
    by (simp add: never_registered_def)
  show ?thesis using h findInstance_never_registered [OF h, of NDEBUG "\<lambda>t. t" 1] by simp
qed

text \<open>
  Claim C6 (entries are permanent). \<open>instances\<close> is a map, so a key has at most one
  entry. From any container and through any sequence of calls, in either build: a key
  that has an entry keeps that very entry, and the entry of a key changes only if the
  sequence holds a registration under that key. So a key goes from absent to present at
  most once, by a registration, and its entry is never replaced or removed.
\<close>

theorem entries_never_replaced:
  "(instances c key = Some p \<longrightarrow> instances (run b hash_code calls c) key = Some p) \<and>
   (never_registered key calls \<longrightarrow>
      instances (run b hash_code calls c) key = instances c key)"
  by (simp add: run_instances_mono run_never_registered)

text \<open>The entry of \<open>''A''\<close> through a registration elsewhere and two lookups.\<close>

theorem entries_never_replaced_witness:
  "instances (run NDEBUG (\<lambda>t. t) [Register (1::nat) (10::int) ''A'']
      (ContextContainer :: (nat, nat, int) container)) ''A''
     = Some (make_shared 1 10) \<and>
   never_registered ''A'' [Register (2::nat) (20::int) ''B'', Get 1 ''A'', Find 2 ''A''] \<and>
   instances (run NDEBUG (\<lambda>t. t) [Register (2::nat) (20::int) ''B'', Get 1 ''A'', Find 2 ''A'']
      (run NDEBUG (\<lambda>t. t) [Register (1::nat) (10::int) ''A'']
         (ContextContainer :: (nat, nat, int) container))) ''A''
     = Some (make_shared 1 10)"
proof -
  let ?c = "run NDEBUG (\<lambda>t. t) [Register (1::nat) (10::int) ''A'']
              (ContextContainer :: (nat, nat, int) container)"
  have h1: "instances ?c ''A'' = Some (make_shared 1 10)"
    by (simp add: registerInstance_def step_defs ContextContainer_def)
  have h2: "never_registered ''A'' [Register (2::nat) (20::int) ''B'', Get 1 ''A'', Find 2 ''A'']"
    by (simp add: never_registered_def)
  from h1 h2 entries_never_replaced [of ?c "''A''" "make_shared 1 10" NDEBUG "\<lambda>t. t"
        "[Register (2::nat) (20::int) ''B'', Get 1 ''A'', Find 2 ''A'']"]
  show ?thesis by blast
qed

text \<open>
  Claim C7 (lookups only read). For every build, container, type and key, the container
  after \<open>getInstance\<close> and after \<open>findInstance\<close> is the container before, both fields
  alike, whether the call returned, threw or aborted.
\<close>

theorem lookups_leave_container_unchanged:
  "snd (getInstance b hash_code T key c) = c \<and> snd (findInstance b hash_code T key c) = c"
  by (simp add: getInstance_state findInstance_state)

text \<open>
  Claim C8 (the first value wins). When \<open>key\<close> has an entry, \<open>registerInstance\<close>
  under \<open>key\<close>, with any type and value and in either build, leaves that entry and the
  hash code recorded for \<open>key\<close> as they were: in a \<open>Debug\<close> build the assertion
  aborts before the insertion, in an \<open>NDEBUG\<close> build \<^verbatim>\<open>insert\<close> does not overwrite.
\<close>

theorem registerInstance_keeps_present_entry:
  assumes "instances c key = Some p"
  shows "instances (snd (registerInstance b hash_code T v key c)) key = Some p \<and>
         typeHashes (snd (registerInstance b hash_code T v key c)) key = typeHashes c key"
  using assms by (simp add: registerInstance_present)

text \<open>Registering 20 over 10 under \<open>''A''\<close> in an \<open>NDEBUG\<close> build.\<close>

theorem registerInstance_keeps_present_entry_witness:
  "instances (run NDEBUG (\<lambda>t. t) [Register (1::nat) (10::int) ''A'']
      (ContextContainer :: (nat, nat, int) container)) ''A''
     = Some (make_shared 1 10) \<and>
   instances (snd (registerInstance NDEBUG (\<lambda>t. t) 2 20 ''A''
      (run NDEBUG (\<lambda>t. t) [Register (1::nat) (10::int) ''A'']
         (ContextContainer :: (nat, nat, int) container)))) ''A''
     = Some (make_shared 1 10) \<and>
   typeHashes (snd (registerInstance NDEBUG (\<lambda>t. t) 2 20 ''A''
      (run NDEBUG (\<lambda>t. t) [Register (1::nat) (10::int) ''A'']
         (ContextContainer :: (nat, nat, int) container)))) ''A''
     = typeHashes (run NDEBUG (\<lambda>t. t) [Register (1::nat) (10::int) ''A'']
         (ContextContainer :: (nat, nat, int) container)) ''A''"
proof -
  let ?c = "run NDEBUG (\<lambda>t. t) [Register (1::nat) (10::int) ''A'']
              (ContextContainer :: (nat, nat, int) container)"
  have h: "instances ?c ''A'' = Some (make_shared 1 10)"
    by (simp add: registerInstance_def step_defs ContextContainer_def)
  from h registerInstance_keeps_present_entry [OF h, of NDEBUG "\<lambda>t. t" 2 20]
  show ?thesis by blast
qed

text \<open>
  Claim C10 (keys are not validated). The operations never inspect the key string. For
  every key that no call of the history has registered, the empty string among them,
  \<open>registerInstance\<close> returns, and afterwards \<open>getInstance\<close> and \<open>findInstance\<close>
  with the same type and key return the registered value, in either build.
\<close>

theorem any_fresh_key_is_accepted:
  assumes "never_registered key calls"
  shows "fst (registerInstance b hash_code T v key (run b hash_code calls ContextContainer)) = Inr () \<and>
         fst (getInstance b hash_code T key
                (run b hash_code (calls @ [Register T v key]) ContextContainer)) = Inr v \<and>
         fst (findInstance b hash_code T key
                (run b hash_code (calls @ [Register T v key]) ContextContainer)) = Inr (Some v)"
proof -
  let ?c = "run b hash_code calls ContextContainer"
  let ?c' = "run b hash_code (calls @ [Register T v key]) ContextContainer"
  from assms have fresh: "instances ?c key = None" by (rule fresh_instances)
  have t: "tagged b hash_code ?c'" by (rule reachable_tagged)
  from fresh have p: "instances ?c' key = Some (make_shared T v)"
    by (simp add: run_append registerInstance_fresh)
  from fresh have "fst (registerInstance b hash_code T v key ?c) = Inr ()"
    by (simp add: registerInstance_fresh)
  moreover from getInstance_present [OF t p, of T]
  have "fst (getInstance b hash_code T key ?c') = Inr v"
    by (simp add: make_shared_def)
  moreover from findInstance_present [OF t p, of T]
  have "fst (findInstance b hash_code T key ?c') = Inr (Some v)"
    by (simp add: make_shared_def)
  ultimately show ?thesis by simp
qed

text \<open>The empty string as a key, after a registration under \<open>''A''\<close>.\<close>

theorem any_fresh_key_is_accepted_witness:
  "never_registered '''' [Register (1::nat) (10::int) ''A''] \<and>
   fst (registerInstance NDEBUG (\<lambda>t. t) 2 20 ''''
          (run NDEBUG (\<lambda>t. t) [Register (1::nat) (10::int) ''A''] ContextContainer)) = Inr () \<and>
   fst (getInstance NDEBUG (\<lambda>t. t) 2 ''''
          (run NDEBUG (\<lambda>t. t) ([Register (1::nat) (10::int) ''A''] @ [Register 2 20 ''''])
             ContextContainer)) = Inr 20 \<and>
   fst (findInstance NDEBUG (\<lambda>t. t) 2 ''''
          (run NDEBUG (\<lambda>t. t) ([Register (1::nat) (10::int) ''A''] @ [Register 2 20 ''''])
             ContextContainer)) = Inr (Some 20)"
proof -
  have h: "never_registered '''' [Register (1::nat) (10::int) ''A'']" by (simp add: never_registered_def)
  show ?thesis
    using h any_fresh_key_is_accepted [OF h, of NDEBUG "\<lambda>t. t" 2 20] by blast
qed

end
